theory Spec2Isabelle
  imports
    Complex_Main
    "HOL-Library.Word"
    "HOL-Library.Char_ord"
    "HOL-Library.List_Lexorder"
    "HOL-Library.Product_Lexorder"
    "HOL-Library.Multiset"
begin

unbundle bit_operations_syntax

section \<open>Python values and exceptions\<close>

text \<open>
  The structured values the hasher receives (\<^verbatim>\<open>Dict[str, Any]\<close> read from JSON): \<^verbatim>\<open>None\<close>,
  booleans, integers, floats, strings, lists and dictionaries with string keys. A \<^verbatim>\<open>str\<close>
  is a \<^typ>\<open>string\<close> whose characters are its code points (those below 256), so
  \<^const>\<open>length\<close> is Python's \<^verbatim>\<open>len\<close>. A \<^verbatim>\<open>float\<close> is its IEEE 754 binary64 bit pattern.
  A \<^verbatim>\<open>dict\<close> is the list of its items in insertion order; the keys of a Python dict are
  pairwise distinct, which \<open>wf_val\<close> below records.
\<close>

datatype pyval =
    PNone
  | PBool bool
  | PInt int
  | PFloat "64 word"
  | PStr string
  | PList "pyval list"
  | PDict "(string \<times> pyval) list"

text \<open>The exceptions the modelled code raises; a raise is the value \<open>Inl e\<close>.\<close>

datatype error = TypeError | ValueError | AttributeError

fun wf_val :: "pyval \<Rightarrow> bool" where
  "wf_val (PList xs) = list_all wf_val xs"
| "wf_val (PDict kvs) = (distinct (map fst kvs) \<and> list_all (\<lambda>kv. wf_val (snd kv)) kvs)"
| "wf_val v = True"

subsection \<open>Floats\<close>

text \<open>
  The fields of a binary64: the sign bit, the 11 bits of the biased exponent and the 52
  bits of the fraction. The exponent field 2047 marks the infinities (fraction 0) and the
  NaNs; every other float is finite and has the magnitude \<open>m \<cdot> 2\<^sup>e\<close> with the mantissa
  \<open>m\<close> and the exponent \<open>e\<close> below (exponent field 0: the zeros and the subnormals).
\<close>

definition float_sign :: "64 word \<Rightarrow> bool" where
  "float_sign f = bit f 63"

definition float_exponent :: "64 word \<Rightarrow> int" where
  "float_exponent f = uint (drop_bit 52 f AND 0x7FF)"

definition float_fraction :: "64 word \<Rightarrow> int" where
  "float_fraction f = uint (take_bit 52 f)"

definition float_is_nan :: "64 word \<Rightarrow> bool" where
  "float_is_nan f = (float_exponent f = 2047 \<and> float_fraction f \<noteq> 0)"

definition float_is_inf :: "64 word \<Rightarrow> bool" where
  "float_is_inf f = (float_exponent f = 2047 \<and> float_fraction f = 0)"

definition float_mantissa :: "64 word \<Rightarrow> int" where
  "float_mantissa f =
     (if float_exponent f = 0 then float_fraction f else 2 ^ 52 + float_fraction f)"

definition float_exp2 :: "64 word \<Rightarrow> int" where
  "float_exp2 f = (if float_exponent f = 0 then - 1074 else float_exponent f - 1075)"

definition pow2 :: "int \<Rightarrow> rat" where
  "pow2 e = (if 0 \<le> e then 2 ^ nat e else 1 / 2 ^ nat (- e))"

definition pow10 :: "int \<Rightarrow> rat" where
  "pow10 e = (if 0 \<le> e then 10 ^ nat e else 1 / 10 ^ nat (- e))"

definition float_magnitude :: "64 word \<Rightarrow> rat" where
  "float_magnitude f = of_int (float_mantissa f) * pow2 (float_exp2 f)"

text \<open>
  The value of a number, as Python's comparisons of \<^verbatim>\<open>int\<close>, \<^verbatim>\<open>bool\<close> and \<^verbatim>\<open>float\<close> see
  it: they compare the exact values, an infinity lies beyond every integer, and a NaN is
  neither smaller than nor equal to anything.
\<close>

datatype number = NaN | NegInf | Finite rat | PosInf

definition float_number :: "64 word \<Rightarrow> number" where
  "float_number f =
     (if float_is_nan f then NaN
      else if float_is_inf f then (if float_sign f then NegInf else PosInf)
      else Finite (if float_sign f then - float_magnitude f else float_magnitude f))"

fun number_lt :: "number \<Rightarrow> number \<Rightarrow> bool" where
  "number_lt NaN y = False"
| "number_lt x NaN = False"
| "number_lt NegInf y = (y \<noteq> NegInf)"
| "number_lt (Finite a) y = (case y of Finite b \<Rightarrow> a < b | PosInf \<Rightarrow> True | _ \<Rightarrow> False)"
| "number_lt PosInf y = False"

fun number_eq :: "number \<Rightarrow> number \<Rightarrow> bool" where
  "number_eq NaN y = False"
| "number_eq x NaN = False"
| "number_eq x y = (x = y)"

subsection \<open>Comparison of values\<close>

text \<open>The numbers: \<^verbatim>\<open>int\<close>, its subclass \<^verbatim>\<open>bool\<close> and \<^verbatim>\<open>float\<close>, with their values.\<close>

fun num_val :: "pyval \<Rightarrow> number option" where
  "num_val (PBool b) = Some (Finite (of_bool b))"
| "num_val (PInt i) = Some (Finite (of_int i))"
| "num_val (PFloat f) = Some (float_number f)"
| "num_val v = None"

text \<open>
  \<^verbatim>\<open>a == b\<close>: numbers are equal when their values are (\<^verbatim>\<open>True == 1 == 1.0\<close>), lists are
  equal elementwise, dicts are equal when they have as many items and every key of the
  first is a key of the second with an equal value, whatever the insertion order. (Inside
  a list or a dict Python takes an object as equal to itself without asking \<^verbatim>\<open>==\<close>; this
  shows only for a NaN met twice as the same object, and the embedding, which has no
  object identity, takes two occurrences of a NaN as two objects.)
\<close>

fun py_eq :: "pyval \<Rightarrow> pyval \<Rightarrow> bool"
  and py_eq_list :: "pyval list \<Rightarrow> pyval list \<Rightarrow> bool"
  and py_eq_items :: "(string \<times> pyval) list \<Rightarrow> (string \<times> pyval) list \<Rightarrow> bool"
where
  "py_eq PNone w = (w = PNone)"
| "py_eq (PBool a) w =
     (case num_val w of Some n \<Rightarrow> number_eq (Finite (of_bool a)) n | None \<Rightarrow> False)"
| "py_eq (PInt i) w =
     (case num_val w of Some n \<Rightarrow> number_eq (Finite (of_int i)) n | None \<Rightarrow> False)"
| "py_eq (PFloat f) w =
     (case num_val w of Some n \<Rightarrow> number_eq (float_number f) n | None \<Rightarrow> False)"
| "py_eq (PStr s) w = (w = PStr s)"
| "py_eq (PList xs) w = (case w of PList ys \<Rightarrow> py_eq_list xs ys | _ \<Rightarrow> False)"
| "py_eq (PDict a) w = (case w of PDict b \<Rightarrow> length a = length b \<and> py_eq_items a b | _ \<Rightarrow> False)"
| "py_eq_list [] ys = (ys = [])"
| "py_eq_list (x # xs) ys = (case ys of [] \<Rightarrow> False | y # ys' \<Rightarrow> py_eq x y \<and> py_eq_list xs ys')"
| "py_eq_items [] b = True"
| "py_eq_items (kv # a) b =
     ((case map_of b (fst kv) of None \<Rightarrow> False | Some v' \<Rightarrow> py_eq (snd kv) v') \<and> py_eq_items a b)"

text \<open>
  \<^verbatim>\<open>a < b\<close>, which raises \<^verbatim>\<open>TypeError\<close> where Python defines no order: numbers compare
  by value, strings lexicographically by code point, lists by their first differing
  elements (found with \<^verbatim>\<open>==\<close>) or else by length; \<^verbatim>\<open>None\<close> and dicts are not ordered,
  not even against themselves, and neither are values of two different kinds.
\<close>

fun py_lt :: "pyval \<Rightarrow> pyval \<Rightarrow> error + bool"
  and py_lt_list :: "pyval list \<Rightarrow> pyval list \<Rightarrow> error + bool"
where
  "py_lt PNone w = Inl TypeError"
| "py_lt (PBool a) w =
     (case num_val w of
        Some n \<Rightarrow> Inr (number_lt (Finite (of_bool a)) n)
      | None \<Rightarrow> Inl TypeError)"
| "py_lt (PInt i) w =
     (case num_val w of
        Some n \<Rightarrow> Inr (number_lt (Finite (of_int i)) n)
      | None \<Rightarrow> Inl TypeError)"
| "py_lt (PFloat f) w =
     (case num_val w of
        Some n \<Rightarrow> Inr (number_lt (float_number f) n)
      | None \<Rightarrow> Inl TypeError)"
| "py_lt (PStr s) w = (case w of PStr t \<Rightarrow> Inr (s < t) | _ \<Rightarrow> Inl TypeError)"
| "py_lt (PList xs) w = (case w of PList ys \<Rightarrow> py_lt_list xs ys | _ \<Rightarrow> Inl TypeError)"
| "py_lt (PDict a) w = Inl TypeError"
| "py_lt_list [] ys = Inr (ys \<noteq> [])"
| "py_lt_list (x # xs) ys =
     (case ys of
        [] \<Rightarrow> Inr False
      | y # ys' \<Rightarrow> if py_eq x y then py_lt_list xs ys' else py_lt x y)"

subsection \<open>The builtin \<^verbatim>\<open>sorted\<close>\<close>

text \<open>
  \<^verbatim>\<open>sorted\<close> is stable and compares with \<^verbatim>\<open><\<close> only; an exception of a comparison ends
  it. It is modelled as the insertion sort that takes the elements from left to right and
  puts each one before the first element of the sorted prefix it is smaller than. (With
  a NaN among the elements \<^verbatim>\<open><\<close> is no order, and what \<^verbatim>\<open>sorted\<close> returns then depends on
  the comparisons the interpreter's algorithm happens to make. On a list of two elements
  the only comparison is the second element against the first, as here; on longer lists
  with a NaN the model is one possible outcome, and no property below speaks of them.)
\<close>

fun insert_sorted :: "pyval \<Rightarrow> pyval list \<Rightarrow> error + pyval list" where
  "insert_sorted x [] = Inr [x]"
| "insert_sorted x (y # ys) =
     (case py_lt x y of
        Inl e \<Rightarrow> Inl e
      | Inr True \<Rightarrow> Inr (x # y # ys)
      | Inr False \<Rightarrow> (case insert_sorted x ys of Inl e \<Rightarrow> Inl e | Inr zs \<Rightarrow> Inr (y # zs)))"

fun sort_into :: "pyval list \<Rightarrow> pyval list \<Rightarrow> error + pyval list" where
  "sort_into acc [] = Inr acc"
| "sort_into acc (x # xs) =
     (case insert_sorted x acc of Inl e \<Rightarrow> Inl e | Inr acc' \<Rightarrow> sort_into acc' xs)"

definition py_sorted :: "pyval list \<Rightarrow> error + pyval list" where
  "py_sorted xs = sort_into [] xs"

text \<open>
  \<^verbatim>\<open>sorted(data.items())\<close> compares the items as tuples. The keys of one dict are distinct
  strings, so every comparison is decided by the keys and none raises: the items come out
  in the lexicographic order of their keys.
\<close>

definition sorted_items :: "(string \<times> pyval) list \<Rightarrow> (string \<times> pyval) list" where
  "sorted_items kvs = sort_key fst kvs"

section \<open>The hasher (engine/cache/hasher.py)\<close>

subsection \<open>\<^verbatim>\<open>_normalize_dict\<close>\<close>

text \<open>A comprehension evaluates its elements in order and stops at the first exception.\<close>

fun collect :: "(error + 'a) list \<Rightarrow> error + 'a list" where
  "collect [] = Inr []"
| "collect (r # rs) =
     (case r of
        Inl e \<Rightarrow> Inl e
      | Inr x \<Rightarrow> (case collect rs of Inl e \<Rightarrow> Inl e | Inr xs \<Rightarrow> Inr (x # xs)))"

text \<open>
  In the list branch every \<^verbatim>\<open>TypeError\<close>, of an element's normalization or of
  \<^verbatim>\<open>sorted\<close>, is caught and raised again as \<^verbatim>\<open>TypeError("Unsortable list items found")\<close>.
\<close>

function normalize_dict :: "pyval \<Rightarrow> error + pyval" where
  "normalize_dict (PDict kvs) =
     (case collect (map (\<lambda>kv. case normalize_dict (snd kv) of
                               Inl e \<Rightarrow> Inl e
                             | Inr v \<Rightarrow> Inr (fst kv, v)) (sorted_items kvs)) of
        Inl e \<Rightarrow> Inl e
      | Inr items \<Rightarrow> Inr (PDict items))"
| "normalize_dict (PList xs) =
     (case collect (map normalize_dict xs) of
        Inl e \<Rightarrow> Inl TypeError
      | Inr ys \<Rightarrow> (case py_sorted ys of Inl e \<Rightarrow> Inl TypeError | Inr zs \<Rightarrow> Inr (PList zs)))"
| "normalize_dict PNone = Inr PNone"
| "normalize_dict (PBool b) = Inr (PBool b)"
| "normalize_dict (PInt i) = Inr (PInt i)"
| "normalize_dict (PFloat f) = Inr (PFloat f)"
| "normalize_dict (PStr s) = Inr (PStr s)"
  by pat_completeness auto
termination
proof (relation "measure size")
  show "wf (measure (size :: pyval \<Rightarrow> nat))" by simp
next
  fix kvs :: "(string \<times> pyval) list" and kv
  assume "kv \<in> set (sorted_items kvs)"
  then have "kv \<in> set kvs" by (simp add: sorted_items_def)
  then have "size (snd kv) < Suc (size_list (size_prod (\<lambda>_. 0) size) kvs)"
    by (induction kvs) (auto simp: less_Suc_eq_le trans_le_add2 split: prod.splits)
  then show "(snd kv, PDict kvs) \<in> measure size" by simp
next
  fix xs :: "pyval list" and x
  assume "x \<in> set xs"
  then have "size x < Suc (size_list size xs)"
    by (induction xs) auto
  then show "(x, PList xs) \<in> measure size" by simp
qed

subsection \<open>\<^verbatim>\<open>json.dumps(normalized, sort_keys=True, separators=(',', ':'))\<close>\<close>

definition hex_digit :: "nat \<Rightarrow> char" where
  "hex_digit n = ''0123456789abcdef'' ! (n mod 16)"

function dec_digits :: "nat \<Rightarrow> string" where
  "dec_digits n =
     (if n < 10 then [char_of (48 + n)] else dec_digits (n div 10) @ [char_of (48 + n mod 10)])"
  by pat_completeness auto
termination
  by (relation "measure id") auto

text \<open>
  \<^verbatim>\<open>int.__repr__\<close>: the decimal digits, after a minus sign for a negative number. (The
  interpreter's limit on the length of such a conversion, 4300 digits by default, and its
  recursion limit are not modelled.)
\<close>

definition int_repr :: "int \<Rightarrow> string" where
  "int_repr i = (if i < 0 then CHR ''-'' # dec_digits (nat (- i)) else dec_digits (nat i))"

definition zero_pad :: "nat \<Rightarrow> nat \<Rightarrow> string" where
  "zero_pad width n = replicate (width - length (dec_digits n)) CHR ''0'' @ dec_digits n"

text \<open>
  \<^verbatim>\<open>float.__repr__\<close> of a finite float: the shortest string of decimal digits that reads
  back as the same float and, among the strings of that length, the one nearest to the
  float's value (in a tie the one with the even last digit). Reading is correctly rounded,
  to nearest and to the even mantissa in a tie: a decimal \<open>c\<close> reads back as the float
  exactly when it lies within half the distance to the float's neighbours, the bounds
  counted in when the mantissa is even.
\<close>

definition round_trips :: "64 word \<Rightarrow> rat \<Rightarrow> bool" where
  "round_trips f c =
     (let m = float_mantissa f;
          e = float_exp2 f;
          v = float_magnitude f;
          up = pow2 e / 2;
          down = (if m = 2 ^ 52 \<and> 1 < float_exponent f then pow2 e / 4 else pow2 e / 2)
      in if even m then v - down \<le> c \<and> c \<le> v + up else v - down < c \<and> c < v + up)"

text \<open>The decimal exponent of \<open>v > 0\<close>: the \<open>k\<close> with \<open>10\<^sup>k\<^sup>-\<^sup>1 \<le> v < 10\<^sup>k\<close>.\<close>

function dec_exponent_from :: "rat \<Rightarrow> int \<Rightarrow> int" where
  "dec_exponent_from v k =
     (if v < pow10 k \<or> 310 \<le> k then k else dec_exponent_from v (k + 1))"
  by pat_completeness auto
termination
  by (relation "measure (\<lambda>(v, k). nat (310 - k))") auto

definition dec_exponent :: "rat \<Rightarrow> int" where
  "dec_exponent v = dec_exponent_from v (- 324)"

text \<open>
  The digits: with \<open>n\<close> significant digits the two candidates are the decimals
  \<open>lo \<cdot> 10\<^sup>x\<close> and \<open>(lo + 1) \<cdot> 10\<^sup>x\<close> around \<open>v\<close>, where \<open>x = k - n\<close>; the first \<open>n\<close> for
  which one of them reads back as the float is taken (17 digits always do).
\<close>

function shortest_digits :: "64 word \<Rightarrow> rat \<Rightarrow> int \<Rightarrow> nat \<Rightarrow> int \<times> int" where
  "shortest_digits f v k n =
     (let x = k - int n;
          scaled = v / pow10 x;
          lo = \<lfloor>scaled\<rfloor>;
          hi = lo + 1;
          ok_lo = round_trips f (of_int lo * pow10 x);
          ok_hi = round_trips f (of_int hi * pow10 x);
          d_lo = scaled - of_int lo;
          d_hi = of_int hi - scaled
      in if n < 17 \<and> \<not> ok_lo \<and> \<not> ok_hi then shortest_digits f v k (n + 1)
         else if ok_lo \<and> (\<not> ok_hi \<or> d_lo < d_hi \<or> (d_lo = d_hi \<and> even lo)) then (lo, x)
         else (hi, x))"
  by pat_completeness auto
termination
  by (relation "measure (\<lambda>(f, v, k, n). 17 - n)") auto

text \<open>
  The layout (format code \<^verbatim>\<open>r\<close>): \<open>ds\<close> are the digits without trailing zeros and
  \<open>decpt\<close> is the position of the decimal point counted from their start. The exponent
  form is used when \<open>decpt\<close> is above 16 or below -3.
\<close>

definition format_repr :: "string \<Rightarrow> int \<Rightarrow> string" where
  "format_repr ds decpt =
     (if decpt \<le> - 4 \<or> 16 < decpt then
        take 1 ds @ (if 1 < length ds then ''.'' @ drop 1 ds else [])
          @ ''e'' @ (if decpt - 1 < 0 then ''-'' else ''+'') @ zero_pad 2 (nat \<bar>decpt - 1\<bar>)
      else if decpt \<le> 0 then ''0.'' @ replicate (nat (- decpt)) CHR ''0'' @ ds
      else if int (length ds) \<le> decpt then
        ds @ replicate (nat decpt - length ds) CHR ''0'' @ ''.0''
      else take (nat decpt) ds @ ''.'' @ drop (nat decpt) ds)"

definition float_repr :: "64 word \<Rightarrow> string" where
  "float_repr f =
     (if float_sign f then ''-'' else [])
     @ (if float_mantissa f = 0 then ''0.0''
        else (let v = float_magnitude f;
                  (d, x) = shortest_digits f v (dec_exponent v) 1;
                  s = dec_digits (nat d);
                  ds = rev (dropWhile (\<lambda>c. c = CHR ''0'') (rev s))
              in format_repr ds (int (length s) + x)))"

text \<open>
  \<^verbatim>\<open>json.dumps\<close> writes a float with \<^verbatim>\<open>float.__repr__\<close>, and the values that are no JSON
  (\<^verbatim>\<open>allow_nan\<close> is on by default) as \<^verbatim>\<open>NaN\<close>, \<^verbatim>\<open>Infinity\<close> and \<^verbatim>\<open>-Infinity\<close>.
\<close>

definition floatstr :: "64 word \<Rightarrow> string" where
  "floatstr f =
     (if float_is_nan f then ''NaN''
      else if float_is_inf f then (if float_sign f then ''-Infinity'' else ''Infinity'')
      else float_repr f)"

text \<open>
  A string is written between double quotes with \<^verbatim>\<open>ensure_ascii\<close> (the default): the
  quote, the backslash and the control characters with a short escape get it, every other
  character outside the printable ASCII range is written \<^verbatim>\<open>\u00XX\<close>.
\<close>

definition escape_char :: "char \<Rightarrow> string" where
  "escape_char c =
     (if c = CHR 0x22 then [CHR 0x5C, CHR 0x22]
      else if c = CHR 0x5C then [CHR 0x5C, CHR 0x5C]
      else if c = CHR 0x0A then [CHR 0x5C, CHR ''n'']
      else if c = CHR 0x0D then [CHR 0x5C, CHR ''r'']
      else if c = CHR 0x09 then [CHR 0x5C, CHR ''t'']
      else if c = CHR 0x08 then [CHR 0x5C, CHR ''b'']
      else if c = CHR 0x0C then [CHR 0x5C, CHR ''f'']
      else if (of_char c :: nat) < 32 \<or> 126 < (of_char c :: nat)
        then [CHR 0x5C, CHR ''u'', CHR ''0'', CHR ''0'',
              hex_digit (of_char c div 16), hex_digit (of_char c mod 16)]
      else [c])"

definition json_str :: "string \<Rightarrow> string" where
  "json_str s = [CHR 0x22] @ concat (map escape_char s) @ [CHR 0x22]"

fun join :: "string \<Rightarrow> string list \<Rightarrow> string" where
  "join sep [] = []"
| "join sep [s] = s"
| "join sep (s # t # ts) = s @ sep @ join sep (t # ts)"

text \<open>
  The item separator is \<^verbatim>\<open>,\<close> and the key separator \<^verbatim>\<open>:\<close>, with no whitespace;
  \<^verbatim>\<open>sort_keys=True\<close> writes the items of every dict as \<^verbatim>\<open>sorted(dct.items())\<close> gives them.
\<close>

function json_dumps :: "pyval \<Rightarrow> string" where
  "json_dumps PNone = ''null''"
| "json_dumps (PBool b) = (if b then ''true'' else ''false'')"
| "json_dumps (PInt i) = int_repr i"
| "json_dumps (PFloat f) = floatstr f"
| "json_dumps (PStr s) = json_str s"
| "json_dumps (PList xs) = ''['' @ join '','' (map json_dumps xs) @ '']''"
| "json_dumps (PDict kvs) =
     ''{'' @ join '','' (map (\<lambda>kv. json_str (fst kv) @ '':'' @ json_dumps (snd kv))
                             (sorted_items kvs)) @ ''}''"
  by pat_completeness auto
termination
proof (relation "measure size")
  show "wf (measure (size :: pyval \<Rightarrow> nat))" by simp
next
  fix xs :: "pyval list" and x
  assume "x \<in> set xs"
  then have "size x < Suc (size_list size xs)"
    by (induction xs) auto
  then show "(x, PList xs) \<in> measure size" by simp
next
  fix kvs :: "(string \<times> pyval) list" and kv
  assume "kv \<in> set (sorted_items kvs)"
  then have "kv \<in> set kvs" by (simp add: sorted_items_def)
  then have "size (snd kv) < Suc (size_list (size_prod (\<lambda>_. 0) size) kvs)"
    by (induction kvs) (auto simp: less_Suc_eq_le trans_le_add2 split: prod.splits)
  then show "(snd kv, PDict kvs) \<in> measure size" by simp
qed

subsection \<open>\<^verbatim>\<open>str.encode('utf-8')\<close>\<close>

type_synonym byte = "8 word"

definition utf8_char :: "char \<Rightarrow> byte list" where
  "utf8_char c =
     (let n = of_char c :: nat
      in if n < 128 then [of_nat n] else [of_nat (192 + n div 64), of_nat (128 + n mod 64)])"

definition encode_utf8 :: "string \<Rightarrow> byte list" where
  "encode_utf8 s = concat (map utf8_char s)"

subsection \<open>\<^verbatim>\<open>hashlib.sha256(...).hexdigest()\<close>\<close>

text \<open>SHA-256 as FIPS 180-4 defines it, on 32-bit words (addition wraps modulo \<open>2^32\<close>).\<close>

definition rotr :: "nat \<Rightarrow> 32 word \<Rightarrow> 32 word" where
  "rotr n x = drop_bit n x OR push_bit (32 - n) x"

definition ch :: "32 word \<Rightarrow> 32 word \<Rightarrow> 32 word \<Rightarrow> 32 word" where
  "ch x y z = (x AND y) XOR (NOT x AND z)"

definition maj :: "32 word \<Rightarrow> 32 word \<Rightarrow> 32 word \<Rightarrow> 32 word" where
  "maj x y z = (x AND y) XOR (x AND z) XOR (y AND z)"

definition bsig0 :: "32 word \<Rightarrow> 32 word" where
  "bsig0 x = rotr 2 x XOR rotr 13 x XOR rotr 22 x"

definition bsig1 :: "32 word \<Rightarrow> 32 word" where
  "bsig1 x = rotr 6 x XOR rotr 11 x XOR rotr 25 x"

definition ssig0 :: "32 word \<Rightarrow> 32 word" where
  "ssig0 x = rotr 7 x XOR rotr 18 x XOR drop_bit 3 x"

definition ssig1 :: "32 word \<Rightarrow> 32 word" where
  "ssig1 x = rotr 17 x XOR rotr 19 x XOR drop_bit 10 x"

definition K256 :: "32 word list" where
  "K256 =
    [0x428A2F98, 0x71374491, 0xB5C0FBCF, 0xE9B5DBA5, 0x3956C25B, 0x59F111F1, 0x923F82A4, 0xAB1C5ED5,
     0xD807AA98, 0x12835B01, 0x243185BE, 0x550C7DC3, 0x72BE5D74, 0x80DEB1FE, 0x9BDC06A7, 0xC19BF174,
     0xE49B69C1, 0xEFBE4786, 0x0FC19DC6, 0x240CA1CC, 0x2DE92C6F, 0x4A7484AA, 0x5CB0A9DC, 0x76F988DA,
     0x983E5152, 0xA831C66D, 0xB00327C8, 0xBF597FC7, 0xC6E00BF3, 0xD5A79147, 0x06CA6351, 0x14292967,
     0x27B70A85, 0x2E1B2138, 0x4D2C6DFC, 0x53380D13, 0x650A7354, 0x766A0ABB, 0x81C2C92E, 0x92722C85,
     0xA2BFE8A1, 0xA81A664B, 0xC24B8B70, 0xC76C51A3, 0xD192E819, 0xD6990624, 0xF40E3585, 0x106AA070,
     0x19A4C116, 0x1E376C08, 0x2748774C, 0x34B0BCB5, 0x391C0CB3, 0x4ED8AA4A, 0x5B9CCA4F, 0x682E6FF3,
     0x748F82EE, 0x78A5636F, 0x84C87814, 0x8CC70208, 0x90BEFFFA, 0xA4506CEB, 0xBEF9A3F7, 0xC67178F2]"

definition H256 :: "32 word list" where
  "H256 =
    [0x6A09E667, 0xBB67AE85, 0x3C6EF372, 0xA54FF53A, 0x510E527F, 0x9B05688C, 0x1F83D9AB, 0x5BE0CD19]"

text \<open>
  Padding: the byte \<open>0x80\<close>, zero bytes up to 8 bytes short of a multiple of 64, and the
  length of the message in bits as a 64-bit big-endian number.
\<close>

definition sha256_pad :: "byte list \<Rightarrow> byte list" where
  "sha256_pad m =
     m @ [0x80] @ replicate ((64 - (length m + 9) mod 64) mod 64) 0
       @ map (\<lambda>i. ucast (drop_bit (8 * (7 - i)) (of_nat (8 * length m) :: 64 word))) [0..<8]"

definition be32 :: "byte list \<Rightarrow> 32 word" where
  "be32 bs = foldl (\<lambda>w b. push_bit 8 w OR ucast b) 0 bs"

definition block_words :: "byte list \<Rightarrow> 32 word list" where
  "block_words blk = map (\<lambda>j. be32 (take 4 (drop (4 * j) blk))) [0..<16]"

definition blocks :: "byte list \<Rightarrow> byte list list" where
  "blocks m = map (\<lambda>i. take 64 (drop (64 * i) m)) [0..<length m div 64]"

fun schedule :: "nat \<Rightarrow> 32 word list \<Rightarrow> 32 word list" where
  "schedule 0 w = w"
| "schedule (Suc n) w =
     (let t = length w
      in schedule n
           (w @ [ssig1 (w ! (t - 2)) + w ! (t - 7) + ssig0 (w ! (t - 15)) + w ! (t - 16)]))"

fun sha_round :: "32 word list \<Rightarrow> 32 word \<times> 32 word \<Rightarrow> 32 word list" where
  "sha_round [a, b, c, d, e, f, g, h] (k, w) =
     (let t1 = h + bsig1 e + ch e f g + k + w;
          t2 = bsig0 a + maj a b c
      in [t1 + t2, a, b, c, d + t1, e, f, g])"
| "sha_round s kw = s"

definition compress :: "32 word list \<Rightarrow> byte list \<Rightarrow> 32 word list" where
  "compress hs blk =
     map2 (+) hs (foldl sha_round hs (zip K256 (schedule 48 (block_words blk))))"

definition sha256 :: "byte list \<Rightarrow> 32 word list" where
  "sha256 m = foldl compress H256 (blocks (sha256_pad m))"

definition hex32 :: "32 word \<Rightarrow> string" where
  "hex32 w = map (\<lambda>i. hex_digit (unat (drop_bit (28 - 4 * i) w AND 0xF))) [0..<8]"

definition sha256_hexdigest :: "byte list \<Rightarrow> string" where
  "sha256_hexdigest m = concat (map hex32 (sha256 m))"

subsection \<open>The public functions\<close>

definition hash_csv_data :: "byte list \<Rightarrow> string" where
  "hash_csv_data csv_content = sha256_hexdigest csv_content"

definition hash_strategy_config :: "pyval \<Rightarrow> error + string" where
  "hash_strategy_config strategy_config =
     (case normalize_dict strategy_config of
        Inl e \<Rightarrow> Inl e
      | Inr normalized \<Rightarrow>
          (let config_string = json_dumps normalized
           in Inr (sha256_hexdigest (encode_utf8 config_string))))"

definition hash_parameters :: "pyval \<Rightarrow> error + string" where
  "hash_parameters params =
     (case normalize_dict params of
        Inl e \<Rightarrow> Inl e
      | Inr normalized \<Rightarrow>
          (let params_string = json_dumps normalized
           in Inr (sha256_hexdigest (encode_utf8 params_string))))"

definition create_backtest_hash :: "string \<Rightarrow> string \<Rightarrow> string \<Rightarrow> string" where
  "create_backtest_hash data_hash strategy_hash params_hash =
     (let combined = data_hash @ '':'' @ strategy_hash @ '':'' @ params_hash
      in sha256_hexdigest (encode_utf8 combined))"

section \<open>The data model (engine/models/backtest_models.py)\<close>

subsection \<open>\<^verbatim>\<open>datetime\<close>\<close>

text \<open>
  A naive \<^verbatim>\<open>datetime\<close>, as \<^verbatim>\<open>datetime.now()\<close> returns it, and its \<^verbatim>\<open>isoformat()\<close>:
  \<^verbatim>\<open>YYYY-MM-DDTHH:MM:SS\<close>, followed by \<^verbatim>\<open>.ffffff\<close> when the microseconds are not zero.
\<close>

record datetime =
  year :: nat
  month :: nat
  day :: nat
  hour :: nat
  minute :: nat
  second :: nat
  microsecond :: nat

definition isoformat :: "datetime \<Rightarrow> string" where
  "isoformat t =
     zero_pad 4 (year t) @ ''-'' @ zero_pad 2 (month t) @ ''-'' @ zero_pad 2 (day t) @ ''T''
       @ zero_pad 2 (hour t) @ '':'' @ zero_pad 2 (minute t) @ '':'' @ zero_pad 2 (second t)
       @ (if microsecond t = 0 then [] else ''.'' @ zero_pad 6 (microsecond t))"

subsection \<open>\<^verbatim>\<open>BacktestIdentity\<close>\<close>

record BacktestIdentity =
  data_hash :: string
  strategy_hash :: string
  params_hash :: string
  master_hash :: string

text \<open>
  \<^verbatim>\<open>__post_init__\<close> runs on whatever values the four fields were given. The test of the
  loop: \<^verbatim>\<open>not isinstance(hash_val, str) or len(hash_val) != 64\<close>.
\<close>

definition invalid_hash :: "pyval \<Rightarrow> bool" where
  "invalid_hash hash_val = (case hash_val of PStr s \<Rightarrow> length s \<noteq> 64 | _ \<Rightarrow> True)"

fun post_init :: "pyval list \<Rightarrow> error + unit" where
  "post_init [] = Inr ()"
| "post_init (hash_val # hashes) =
     (if invalid_hash hash_val then Inl ValueError else post_init hashes)"

fun str_of :: "pyval \<Rightarrow> string" where
  "str_of (PStr s) = s"
| "str_of v = []"

text \<open>The construction: the object exists only if \<^verbatim>\<open>__post_init__\<close> does not raise.\<close>

definition BacktestIdentity_init ::
  "pyval \<Rightarrow> pyval \<Rightarrow> pyval \<Rightarrow> pyval \<Rightarrow> error + BacktestIdentity" where
  "BacktestIdentity_init d s p m =
     (case post_init [d, s, p, m] of
        Inl e \<Rightarrow> Inl e
      | Inr u \<Rightarrow> Inr \<lparr>data_hash = str_of d, strategy_hash = str_of s,
                      params_hash = str_of p, master_hash = str_of m\<rparr>)"

text \<open>What a SHA-256 hex digest is: 64 hexadecimal characters.\<close>

definition is_hex_char :: "char \<Rightarrow> bool" where
  "is_hex_char c = (c \<in> set ''0123456789abcdefABCDEF'')"

definition is_hex_digest :: "pyval \<Rightarrow> bool" where
  "is_hex_digest v = (case v of PStr s \<Rightarrow> length s = 64 \<and> list_all is_hex_char s | _ \<Rightarrow> False)"

subsection \<open>\<^verbatim>\<open>BacktestMetadata\<close>\<close>

text \<open>
  \<^verbatim>\<open>execution_time_seconds\<close> is a float that is stored and never computed with; it is
  carried as a real number.
\<close>

record BacktestMetadata =
  created_at :: datetime
  last_accessed :: datetime
  access_count :: int
  execution_time_seconds :: real
  data_filename :: "string option"
  data_size_bytes :: "int option"
  data_rows :: int

text \<open>\<^verbatim>\<open>BacktestMetadata.mark_accessed\<close>; \<open>now\<close> is what \<^verbatim>\<open>datetime.now()\<close> returns.\<close>

definition metadata_mark_accessed :: "datetime \<Rightarrow> BacktestMetadata \<Rightarrow> BacktestMetadata" where
  "metadata_mark_accessed now md = md\<lparr>last_accessed := now, access_count := access_count md + 1\<rparr>"

subsection \<open>\<^verbatim>\<open>BacktestResult\<close>\<close>

record BacktestResult =
  raw_results :: "byte list"
  summary :: "(string \<times> pyval) list"
  equity_curve :: "(string \<times> pyval) list list"
  trades :: "(string \<times> pyval) list list option"

text \<open>
  Attribute lookup on a \<^verbatim>\<open>BacktestResult\<close>: the dataclass has the four fields above and no
  other data attribute, and a name it does not have raises \<^verbatim>\<open>AttributeError\<close>.
\<close>

datatype result_attr =
    RawResults "byte list"
  | Summary "(string \<times> pyval) list"
  | EquityCurve "(string \<times> pyval) list list"
  | Trades "(string \<times> pyval) list list option"

definition result_getattr :: "BacktestResult \<Rightarrow> string \<Rightarrow> error + result_attr" where
  "result_getattr r name =
     (if name = ''raw_results'' then Inr (RawResults (raw_results r))
      else if name = ''summary'' then Inr (Summary (summary r))
      else if name = ''equity_curve'' then Inr (EquityCurve (equity_curve r))
      else if name = ''trades'' then Inr (Trades (trades r))
      else Inl AttributeError)"

subsection \<open>\<^verbatim>\<open>BacktestRecord\<close>\<close>

record BacktestRecord =
  identity :: BacktestIdentity
  metadata :: BacktestMetadata
  results :: BacktestResult

definition record_master_hash :: "BacktestRecord \<Rightarrow> string" where
  "record_master_hash r = master_hash (identity r)"

definition record_created_at :: "BacktestRecord \<Rightarrow> datetime" where
  "record_created_at r = created_at (metadata r)"

definition mark_accessed :: "datetime \<Rightarrow> BacktestRecord \<Rightarrow> BacktestRecord" where
  "mark_accessed now r = r\<lparr>metadata := metadata_mark_accessed now (metadata r)\<rparr>"

text \<open>
  \<^verbatim>\<open>to_api_dict\<close>: the values of the dict display are evaluated in the order they are
  written. The first three cannot raise; the fourth reads \<^verbatim>\<open>self.results.stats\<close>.
\<close>

datatype api_value =
    Str string
  | Num int
  | Float real
  | NoneValue
  | Attr result_attr

definition to_api_dict :: "BacktestRecord \<Rightarrow> error + (string \<times> api_value) list" where
  "to_api_dict r =
     (case result_getattr (results r) ''stats'' of
        Inl e \<Rightarrow> Inl e
      | Inr stats \<Rightarrow>
          (case result_getattr (results r) ''equity_curve'' of
             Inl e \<Rightarrow> Inl e
           | Inr curve \<Rightarrow>
               Inr [(''master_hash'', Str (master_hash (identity r))),
                    (''data_hash'', Str (take 16 (data_hash (identity r)) @ ''...'')),
                    (''strategy_hash'', Str (take 16 (strategy_hash (identity r)) @ ''...'')),
                    (''stats'', Attr stats),
                    (''equity_curve'', Attr curve),
                    (''created_at'', Str (isoformat (created_at (metadata r)))),
                    (''last_accessed'', Str (isoformat (last_accessed (metadata r)))),
                    (''access_count'', Num (access_count (metadata r))),
                    (''execution_time_seconds'', Float (execution_time_seconds (metadata r))),
                    (''data_filename'',
                       (case data_filename (metadata r) of None \<Rightarrow> NoneValue | Some f \<Rightarrow> Str f)),
                    (''data_rows'', Num (data_rows (metadata r)))]))"

subsection \<open>\<^verbatim>\<open>CacheStats\<close>\<close>

record CacheStats =
  total_records :: int
  total_data_hashes :: int
  total_strategy_hashes :: int
  cache_hits :: int
  cache_misses :: int
  total_requests :: int

definition CacheStats_default :: CacheStats where
  "CacheStats_default =
     \<lparr>total_records = 0, total_data_hashes = 0, total_strategy_hashes = 0,
      cache_hits = 0, cache_misses = 0, total_requests = 0\<rparr>"

text \<open>
  The rates are floats; the quotient is written as the exact one (Python rounds it to the
  nearest float), and \<^verbatim>\<open>0.0\<close>, \<^verbatim>\<open>1.0\<close> and \<^verbatim>\<open>1.0 - 0.0\<close> are exact.
\<close>

definition hit_rate :: "CacheStats \<Rightarrow> real" where
  "hit_rate s =
     (if total_requests s = 0 then 0 else real_of_int (cache_hits s) / real_of_int (total_requests s))"

definition miss_rate :: "CacheStats \<Rightarrow> real" where
  "miss_rate s = 1 - hit_rate s"

definition record_hit :: "CacheStats \<Rightarrow> CacheStats" where
  "record_hit s = s\<lparr>cache_hits := cache_hits s + 1, total_requests := total_requests s + 1\<rparr>"

definition record_miss :: "CacheStats \<Rightarrow> CacheStats" where
  "record_miss s = s\<lparr>cache_misses := cache_misses s + 1, total_requests := total_requests s + 1\<rparr>"

text \<open>A sequence of calls on one \<^verbatim>\<open>CacheStats\<close> object, first call first.\<close>

datatype stats_call = RecordHit | RecordMiss

fun run_call :: "stats_call \<Rightarrow> CacheStats \<Rightarrow> CacheStats" where
  "run_call RecordHit s = record_hit s"
| "run_call RecordMiss s = record_miss s"

fun run_calls :: "stats_call list \<Rightarrow> CacheStats \<Rightarrow> CacheStats" where
  "run_calls [] s = s"
| "run_calls (c # cs) s = run_calls cs (run_call c s)"

section \<open>Notions the properties are stated with\<close>

text \<open>
  The kind of a value: what Python's \<^verbatim>\<open><\<close> looks at first. Values of two different
  kinds have no order.
\<close>

datatype kind = NoneKind | NumKind | StrKind | ListKind | DictKind

fun kind_of :: "pyval \<Rightarrow> kind" where
  "kind_of PNone = NoneKind"
| "kind_of (PBool b) = NumKind"
| "kind_of (PInt i) = NumKind"
| "kind_of (PFloat f) = NumKind"
| "kind_of (PStr s) = StrKind"
| "kind_of (PList xs) = ListKind"
| "kind_of (PDict kvs) = DictKind"

definition is_nan :: "pyval \<Rightarrow> bool" where
  "is_nan v = (num_val v = Some NaN)"

text \<open>
  The place of a number in the order by value, as a pair under the lexicographic order:
  \<open>(- 1, 0)\<close> for minus infinity, \<open>(0, r)\<close> for the finite value \<open>r\<close>, \<open>(1, 0)\<close> for
  plus infinity.
\<close>

fun number_key :: "number \<Rightarrow> int \<times> rat" where
  "number_key NegInf = (- 1, 0)"
| "number_key (Finite r) = (0, r)"
| "number_key PosInf = (1, 0)"
| "number_key NaN = (2, 0)"

definition the_num :: "pyval \<Rightarrow> int \<times> rat" where
  "the_num v = (case num_val v of Some n \<Rightarrow> number_key n | None \<Rightarrow> (0, 0))"

text \<open>
  \<open>reordered v w\<close>: \<open>w\<close> is \<open>v\<close> with the items of its dicts, at any depth, listed in
  another order. Lists keep the order of their elements.
\<close>

inductive reordered :: "pyval \<Rightarrow> pyval \<Rightarrow> bool" where
  same: "reordered v v"
| in_list: "list_all2 reordered xs ys \<Longrightarrow> reordered (PList xs) (PList ys)"
| in_dict:
    "list_all2 (\<lambda>kv kv'. fst kv = fst kv' \<and> reordered (snd kv) (snd kv')) a b \<Longrightarrow>
     mset b = mset c \<Longrightarrow> reordered (PDict a) (PDict c)"

section \<open>Properties of the data model\<close>

subsection \<open>Cache statistics\<close>

lemma record_hit_counts:
  "cache_hits (record_hit s) = cache_hits s + 1 \<and> cache_misses (record_hit s) = cache_misses s
   \<and> total_requests (record_hit s) = total_requests s + 1"
  by (simp add: record_hit_def)

lemma record_miss_counts:
  "cache_misses (record_miss s) = cache_misses s + 1 \<and> cache_hits (record_miss s) = cache_hits s
   \<and> total_requests (record_miss s) = total_requests s + 1"
  by (simp add: record_miss_def)

lemma run_calls_invariant:
  "cache_hits s + cache_misses s = total_requests s \<Longrightarrow>
   cache_hits (run_calls cs s) + cache_misses (run_calls cs s) = total_requests (run_calls cs s)"
proof (induction cs arbitrary: s)
  case Nil
  then show ?case by simp
next
  case (Cons c cs)
  have "cache_hits (run_call c s) + cache_misses (run_call c s) = total_requests (run_call c s)"
    using Cons.prems by (cases c) (simp_all add: record_hit_counts record_miss_counts)
  then show ?case using Cons.IH by simp
qed

text \<open>
  Claim C10. Starting from the default \<^verbatim>\<open>CacheStats\<close> (all counters 0), after any sequence
  of \<^verbatim>\<open>record_hit\<close> and \<^verbatim>\<open>record_miss\<close> calls the hits and the misses add up to the
  requests. Each call preserves this equation, adds exactly 1 to \<^verbatim>\<open>total_requests\<close> and
  adds exactly 1 to its own counter, leaving the other one alone.
\<close>

theorem cache_stats_invariant:
  "cache_hits (run_calls cs CacheStats_default) + cache_misses (run_calls cs CacheStats_default)
     = total_requests (run_calls cs CacheStats_default)
   \<and> (cache_hits s + cache_misses s = total_requests s \<longrightarrow>
        cache_hits (record_hit s) + cache_misses (record_hit s) = total_requests (record_hit s)
      \<and> cache_hits (record_miss s) + cache_misses (record_miss s) = total_requests (record_miss s))
   \<and> total_requests (record_hit s) = total_requests s + 1
   \<and> cache_hits (record_hit s) = cache_hits s + 1
   \<and> cache_misses (record_hit s) = cache_misses s
   \<and> total_requests (record_miss s) = total_requests s + 1
   \<and> cache_misses (record_miss s) = cache_misses s + 1
   \<and> cache_hits (record_miss s) = cache_hits s"
proof -
  have "cache_hits CacheStats_default + cache_misses CacheStats_default
          = total_requests CacheStats_default"
    by (simp add: CacheStats_default_def)
  then have "cache_hits (run_calls cs CacheStats_default) + cache_misses (run_calls cs CacheStats_default)
     = total_requests (run_calls cs CacheStats_default)"
    by (rule run_calls_invariant)
  then show ?thesis
    by (simp add: record_hit_counts record_miss_counts)
qed

theorem cache_stats_invariant_witness:
  "cache_hits (record_hit (record_miss CacheStats_default))
     + cache_misses (record_hit (record_miss CacheStats_default))
     = total_requests (record_hit (record_miss CacheStats_default))
   \<and> total_requests (record_hit (record_miss CacheStats_default)) = 2"
proof -
  have inv: "cache_hits (record_miss CacheStats_default) + cache_misses (record_miss CacheStats_default)
          = total_requests (record_miss CacheStats_default)"
    by (simp add: record_miss_def CacheStats_default_def)
  from cache_stats_invariant [of "[]" "record_miss CacheStats_default"] inv
  have "cache_hits (record_hit (record_miss CacheStats_default))
     + cache_misses (record_hit (record_miss CacheStats_default))
     = total_requests (record_hit (record_miss CacheStats_default))"
    by blast
  moreover have "total_requests (record_hit (record_miss CacheStats_default)) = 2"
    by (simp add: record_hit_def record_miss_def CacheStats_default_def)
  ultimately show ?thesis by simp
qed

text \<open>
  Claim C6, on the code. With no request yet \<^verbatim>\<open>hit_rate\<close> is 0, as its guard for
  \<^verbatim>\<open>total_requests == 0\<close> makes it; \<^verbatim>\<open>miss_rate\<close> has no such guard, it is
  \<^verbatim>\<open>1.0 - hit_rate\<close> and so is 1, not 0, although no miss was counted.
\<close>

theorem rates_without_requests:
  "total_requests s = 0 \<Longrightarrow> hit_rate s = 0 \<and> miss_rate s = 1"
  by (simp add: hit_rate_def miss_rate_def)

theorem rates_without_requests_witness:
  "total_requests CacheStats_default = 0 \<and> hit_rate CacheStats_default = 0
   \<and> miss_rate CacheStats_default = 1 \<and> cache_misses CacheStats_default = 0"
proof -
  have z: "total_requests CacheStats_default = 0" by (simp add: CacheStats_default_def)
  from rates_without_requests [OF z] z show ?thesis by (simp add: CacheStats_default_def)
qed

subsection \<open>Records\<close>

text \<open>
  Claim C9. \<^verbatim>\<open>mark_accessed\<close> adds exactly 1 to \<^verbatim>\<open>access_count\<close>, sets \<^verbatim>\<open>last_accessed\<close>
  to the current time, and changes nothing else: the identity, the results and the
  metadata fields \<^verbatim>\<open>created_at\<close>, \<^verbatim>\<open>execution_time_seconds\<close>, \<^verbatim>\<open>data_filename\<close>,
  \<^verbatim>\<open>data_size_bytes\<close> and \<^verbatim>\<open>data_rows\<close> keep their values.
\<close>

theorem mark_accessed_frame:
  "access_count (metadata (mark_accessed now r)) = access_count (metadata r) + 1
   \<and> last_accessed (metadata (mark_accessed now r)) = now
   \<and> identity (mark_accessed now r) = identity r
   \<and> results (mark_accessed now r) = results r
   \<and> created_at (metadata (mark_accessed now r)) = created_at (metadata r)
   \<and> execution_time_seconds (metadata (mark_accessed now r)) = execution_time_seconds (metadata r)
   \<and> data_filename (metadata (mark_accessed now r)) = data_filename (metadata r)
   \<and> data_size_bytes (metadata (mark_accessed now r)) = data_size_bytes (metadata r)
   \<and> data_rows (metadata (mark_accessed now r)) = data_rows (metadata r)"
  by (simp add: mark_accessed_def metadata_mark_accessed_def)

text \<open>
  Claim C8, on the code. \<^verbatim>\<open>to_api_dict\<close> reads the attribute \<^verbatim>\<open>stats\<close> of the results,
  which \<^verbatim>\<open>BacktestResult\<close> does not have (its field is \<^verbatim>\<open>summary\<close>): for every record the
  call raises \<^verbatim>\<open>AttributeError\<close> and returns no mapping.
\<close>

theorem to_api_dict_raises:
  "to_api_dict r = Inl AttributeError"
  by (simp add: to_api_dict_def result_getattr_def)

subsection \<open>Identity\<close>

text \<open>
  Claim C4, as the code has it. The construction of a \<^verbatim>\<open>BacktestIdentity\<close> succeeds if and
  only if each of the four values is a string of exactly 64 characters, whatever the
  characters are; otherwise it raises \<^verbatim>\<open>ValueError\<close>.
\<close>

theorem BacktestIdentity_init_succeeds_iff:
  "(\<exists>i. BacktestIdentity_init d s p m = Inr i)
     = ((\<exists>x. d = PStr x \<and> length x = 64) \<and> (\<exists>x. s = PStr x \<and> length x = 64)
        \<and> (\<exists>x. p = PStr x \<and> length x = 64) \<and> (\<exists>x. m = PStr x \<and> length x = 64))
   \<and> ((\<exists>i. BacktestIdentity_init d s p m = Inr i) \<or> BacktestIdentity_init d s p m = Inl ValueError)"
  by (auto simp: BacktestIdentity_init_def invalid_hash_def split: pyval.splits sum.splits)

text \<open>
  Claim C4, as stated, fails: four strings of 64 times the letter \<^verbatim>\<open>z\<close>, which is no
  hexadecimal character, are accepted.
\<close>

theorem non_hex_identity_accepted:
  "BacktestIdentity_init (PStr (replicate 64 CHR ''z'')) (PStr (replicate 64 CHR ''z''))
       (PStr (replicate 64 CHR ''z'')) (PStr (replicate 64 CHR ''z''))
     = Inr \<lparr>data_hash = replicate 64 CHR ''z'', strategy_hash = replicate 64 CHR ''z'',
            params_hash = replicate 64 CHR ''z'', master_hash = replicate 64 CHR ''z''\<rparr>
   \<and> \<not> is_hex_digest (PStr (replicate 64 CHR ''z''))"
  by (simp add: BacktestIdentity_init_def invalid_hash_def is_hex_digest_def is_hex_char_def list_all_iff)

section \<open>Properties of the hasher\<close>

text \<open>
  Claim C7. \<^verbatim>\<open>hash_parameters\<close> and \<^verbatim>\<open>hash_strategy_config\<close> are the same function: on
  every value both normalize it, serialize the result with sorted keys and the separators
  \<^verbatim>\<open>,\<close> and \<^verbatim>\<open>:\<close>, and digest the bytes; both raise where the normalization does.
\<close>

theorem hash_parameters_eq_hash_strategy_config:
  "hash_parameters v = hash_strategy_config v"
  by (simp add: hash_parameters_def hash_strategy_config_def)

subsection \<open>Lists of values of different kinds\<close>

lemma py_lt_kind: "kind_of x \<noteq> kind_of y \<Longrightarrow> py_lt x y = Inl TypeError"
  by (cases x; cases y) simp_all

lemma collect_map_Inr_id: "collect (map Inr xs) = Inr xs"
  by (induction xs) auto

lemma collect_map_Inr: "collect (map f xs) = Inr ys \<Longrightarrow> list_all2 (\<lambda>x y. f x = Inr y) xs ys"
  by (induction xs arbitrary: ys) (auto split: sum.splits)

lemma list_all2_in_left: "list_all2 P xs ys \<Longrightarrow> x \<in> set xs \<Longrightarrow> \<exists>y\<in>set ys. P x y"
  by (induction rule: list_all2_induct) auto

lemma normalize_dict_kind: "normalize_dict v = Inr w \<Longrightarrow> kind_of w = kind_of v"
  by (cases v) (auto split: sum.splits)

lemma insert_sorted_mset:
  "insert_sorted x acc = Inr ys \<Longrightarrow> mset ys = add_mset x (mset acc)"
  by (induction acc arbitrary: ys) (auto split: sum.splits bool.splits)

lemma insert_sorted_other_kind:
  assumes "acc \<noteq> []" and "\<forall>a\<in>set acc. kind_of a = k" and "kind_of x \<noteq> k"
  shows "insert_sorted x acc = Inl TypeError"
proof -
  obtain y ys where acc: "acc = y # ys" using assms(1) by (cases acc) auto
  with assms have "kind_of x \<noteq> kind_of y" by auto
  then show ?thesis by (simp add: acc py_lt_kind)
qed

lemma sort_into_mixed:
  assumes "\<forall>a\<in>set acc. kind_of a = k"
    and "a \<in> set (acc @ xs)" and "b \<in> set (acc @ xs)" and "kind_of a \<noteq> kind_of b"
  shows "\<exists>e. sort_into acc xs = Inl e"
  using assms
proof (induction xs arbitrary: acc k)
  case Nil
  then show ?case by auto
next
  case (Cons x xs)
  show ?case
  proof (cases "insert_sorted x acc")
    case (Inl e)
    then show ?thesis by simp
  next
    case (Inr acc')
    then have m: "mset acc' = add_mset x (mset acc)" by (rule insert_sorted_mset)
    then have s: "set acc' = insert x (set acc)" by (metis set_mset_add_mset_insert set_mset_mset)
    have hom: "\<forall>c\<in>set acc'. kind_of c = kind_of x"
    proof (cases "acc = []")
      case True
      with s show ?thesis by simp
    next
      case False
      have "kind_of x = k"
        using insert_sorted_other_kind [OF False Cons.prems(1)] Inr by fastforce
      with s Cons.prems(1) show ?thesis by auto
    qed
    have "a \<in> set (acc' @ xs)" "b \<in> set (acc' @ xs)"
      using Cons.prems(2,3) s by auto
    from Cons.IH [OF hom this Cons.prems(4)] Inr show ?thesis by simp
  qed
qed

lemma py_sorted_mixed:
  assumes "a \<in> set xs" and "b \<in> set xs" and "kind_of a \<noteq> kind_of b"
  shows "\<exists>e. py_sorted xs = Inl e"
  unfolding py_sorted_def
  by (rule sort_into_mixed [where acc = "[]" and k = NoneKind and a = a and b = b])
     (use assms in auto)

lemma normalize_list_mixed:
  assumes "x \<in> set xs" and "y \<in> set xs" and "kind_of x \<noteq> kind_of y"
  shows "normalize_dict (PList xs) = Inl TypeError"
proof (cases "collect (map normalize_dict xs)")
  case (Inl e)
  then show ?thesis by simp
next
  case (Inr ys)
  then have rel: "list_all2 (\<lambda>u v. normalize_dict u = Inr v) xs ys"
    by (rule collect_map_Inr)
  then have kinds: "list_all2 (\<lambda>u v. kind_of v = kind_of u) xs ys"
    by (rule list_all2_mono) (simp add: normalize_dict_kind)
  from list_all2_in_left [OF kinds assms(1)]
  obtain x' where x': "x' \<in> set ys" "kind_of x' = kind_of x" by auto
  from list_all2_in_left [OF kinds assms(2)]
  obtain y' where y': "y' \<in> set ys" "kind_of y' = kind_of y" by auto
  from x' y' assms(3) have "\<exists>e. py_sorted ys = Inl e"
    by (intro py_sorted_mixed [of x' ys y']) auto
  with Inr show ?thesis by auto
qed

text \<open>
  Claim C3. A list with two elements of different kinds (such as \<^verbatim>\<open>[1, "a"]\<close>: a number
  and a string) has no sorted form: its normalization raises the \<^verbatim>\<open>TypeError\<close> of the
  unsortable list and returns nothing, neither a partly sorted nor the unsorted list.
\<close>

theorem normalize_mixed_list_fails:
  assumes "x \<in> set xs" and "y \<in> set xs" and "kind_of x \<noteq> kind_of y"
  shows "normalize_dict (PList xs) = Inl TypeError"
  using assms by (rule normalize_list_mixed)

theorem normalize_mixed_list_fails_witness:
  "normalize_dict (PList [PInt 1, PStr ''a'']) = Inl TypeError"
  by (rule normalize_mixed_list_fails [of "PInt 1" _ "PStr ''a''"]) simp_all

subsection \<open>Lists of values of one kind\<close>

lemma insert_sorted_total:
  fixes key :: "pyval \<Rightarrow> 'k::linorder"
  assumes "\<forall>y\<in>set acc. py_lt x y = Inr (key x < key y)" and "sorted (map key acc)"
  shows "\<exists>ys. insert_sorted x acc = Inr ys \<and> sorted (map key ys)
           \<and> mset ys = add_mset x (mset acc)
           \<and> (\<forall>c. filter (\<lambda>z. c = key z) ys = filter (\<lambda>z. c = key z) (acc @ [x]))"
  using assms
proof (induction acc)
  case Nil
  then show ?case by simp
next
  case (Cons y acc)
  show ?case
  proof (cases "key x < key y")
    case True
    define l where "l = y # acc"
    have "\<forall>z\<in>set l. key x < key z"
      using True Cons.prems(2) by (auto simp: l_def)
    then have "filter (\<lambda>z. key x = key z) l = []"
      unfolding filter_empty_conv by fastforce
    then have "\<forall>c. filter (\<lambda>z. c = key z) (x # l) = filter (\<lambda>z. c = key z) (l @ [x])"
      by simp
    then have "\<forall>c. filter (\<lambda>z. c = key z) (x # y # acc) = filter (\<lambda>z. c = key z) ((y # acc) @ [x])"
      unfolding l_def .
    moreover have "insert_sorted x (y # acc) = Inr (x # y # acc)"
      using True Cons.prems(1) by simp
    moreover have "sorted (map key (x # y # acc))"
      using True Cons.prems(2) by auto
    ultimately show ?thesis by simp
  next
    case False
    from Cons.prems have "\<forall>y\<in>set acc. py_lt x y = Inr (key x < key y)" "sorted (map key acc)"
      by auto
    from Cons.IH [OF this] obtain ys where ys: "insert_sorted x acc = Inr ys"
      "sorted (map key ys)" "mset ys = add_mset x (mset acc)"
      "\<forall>c. filter (\<lambda>z. c = key z) ys = filter (\<lambda>z. c = key z) (acc @ [x])"
      by blast
    have "set ys = insert x (set acc)"
      using ys(3) by (metis set_mset_add_mset_insert set_mset_mset)
    then have "sorted (map key (y # ys))"
      using ys(2) False Cons.prems(2) by auto
    with ys False Cons.prems(1) show ?thesis by auto
  qed
qed

lemma sort_into_total:
  fixes key :: "pyval \<Rightarrow> 'k::linorder"
  assumes "\<forall>x\<in>set (acc @ xs). \<forall>y\<in>set (acc @ xs). py_lt x y = Inr (key x < key y)"
    and "sorted (map key acc)"
  shows "\<exists>ys. sort_into acc xs = Inr ys \<and> sorted (map key ys)
           \<and> mset ys = mset (acc @ xs)
           \<and> (\<forall>c. filter (\<lambda>z. c = key z) ys = filter (\<lambda>z. c = key z) (acc @ xs))"
  using assms
proof (induction xs arbitrary: acc)
  case Nil
  then show ?case by simp
next
  case (Cons x xs)
  have "\<forall>y\<in>set acc. py_lt x y = Inr (key x < key y)"
    using Cons.prems(1) by simp
  from insert_sorted_total [OF this Cons.prems(2)]
  obtain acc' where acc': "insert_sorted x acc = Inr acc'" "sorted (map key acc')"
    "mset acc' = add_mset x (mset acc)"
    "\<forall>c. filter (\<lambda>z. c = key z) acc' = filter (\<lambda>z. c = key z) (acc @ [x])"
    by blast
  have "set acc' = insert x (set acc)"
    using acc'(3) by (metis set_mset_add_mset_insert set_mset_mset)
  then have "\<forall>u\<in>set (acc' @ xs). \<forall>v\<in>set (acc' @ xs). py_lt u v = Inr (key u < key v)"
    using Cons.prems(1) by simp
  from Cons.IH [OF this acc'(2)]
  obtain ys where ys: "sort_into acc' xs = Inr ys" "sorted (map key ys)"
    "mset ys = mset (acc' @ xs)"
    "\<forall>c. filter (\<lambda>z. c = key z) ys = filter (\<lambda>z. c = key z) (acc' @ xs)"
    by blast
  have "sort_into acc (x # xs) = Inr ys" using acc'(1) ys(1) by simp
  moreover have "mset ys = mset (acc @ x # xs)" using ys(3) acc'(3) by simp
  moreover have "\<forall>c. filter (\<lambda>z. c = key z) ys = filter (\<lambda>z. c = key z) (acc @ x # xs)"
    using ys(4) acc'(4) by simp
  ultimately show ?case using ys(2) by blast
qed

lemma py_sorted_total:
  fixes key :: "pyval \<Rightarrow> 'k::linorder"
  assumes "\<forall>x\<in>set xs. \<forall>y\<in>set xs. py_lt x y = Inr (key x < key y)"
  shows "py_sorted xs = Inr (sort_key key xs)"
proof -
  from sort_into_total [of "[]" xs key] assms
  obtain ys where ys: "sort_into [] xs = Inr ys" "sorted (map key ys)" "mset ys = mset xs"
    "\<forall>c. filter (\<lambda>z. c = key z) ys = filter (\<lambda>z. c = key z) xs"
    by auto
  have "sort_key key xs = ys"
    by (rule properties_for_sort_key) (use ys in auto)
  with ys(1) show ?thesis by (simp add: py_sorted_def)
qed

lemma number_lt_key:
  "x \<noteq> NaN \<Longrightarrow> y \<noteq> NaN \<Longrightarrow> number_lt x y = (number_key x < number_key y)"
  by (cases x; cases y) (simp_all add: less_prod_def)

lemma py_lt_num:
  assumes "kind_of x = NumKind" and "kind_of y = NumKind" and "\<not> is_nan x" and "\<not> is_nan y"
  shows "py_lt x y = Inr (the_num x < the_num y)"
proof -
  from assms(1) obtain n where n: "num_val x = Some n" by (cases x) simp_all
  from assms(2) obtain m where m: "num_val y = Some m" by (cases y) simp_all
  from n m assms(3,4) have nan: "n \<noteq> NaN" "m \<noteq> NaN" by (simp_all add: is_nan_def)
  from assms(1) n m have "py_lt x y = Inr (number_lt n m)" by (cases x) auto
  with nan n m show ?thesis by (simp add: number_lt_key the_num_def)
qed

lemma normalize_dict_scalar:
  "kind_of x \<noteq> ListKind \<Longrightarrow> kind_of x \<noteq> DictKind \<Longrightarrow> normalize_dict x = Inr x"
  by (cases x) simp_all

lemma collect_normalize_scalars:
  assumes "\<forall>x\<in>set xs. kind_of x \<noteq> ListKind \<and> kind_of x \<noteq> DictKind"
  shows "collect (map normalize_dict xs) = Inr xs"
proof -
  have "map normalize_dict xs = map Inr xs"
    using assms by (intro map_cong refl normalize_dict_scalar) auto
  then show ?thesis by (simp only: collect_map_Inr_id)
qed

lemma normalize_numbers:
  assumes "\<forall>x\<in>set xs. kind_of x = NumKind \<and> \<not> is_nan x"
  shows "normalize_dict (PList xs) = Inr (PList (sort_key the_num xs))"
proof -
  have "collect (map normalize_dict xs) = Inr xs"
    using assms by (intro collect_normalize_scalars) simp
  moreover have "py_sorted xs = Inr (sort_key the_num xs)"
    using assms by (intro py_sorted_total) (simp add: py_lt_num)
  ultimately show ?thesis by simp
qed

lemma sort_key_map_inj:
  fixes f :: "'b \<Rightarrow> 'k::linorder"
  assumes "\<And>x. f (g x) = h x"
  shows "sort_key f (map g xs) = map g (sort_key h xs)"
proof (rule properties_for_sort_key)
  show "mset (map g (sort_key h xs)) = mset (map g xs)" by simp
  show "sorted (map f (map g (sort_key h xs)))"
    by (simp add: assms comp_def)
  fix k assume "k \<in> set (map g (sort_key h xs))"
  show "filter (\<lambda>x. f k = f x) (map g (sort_key h xs)) = filter (\<lambda>x. f k = f x) (map g xs)"
    using sort_key_stable [of h "f k" xs] by (simp add: filter_map comp_def assms eq_commute)
qed

lemma sort_key_order_embedding:
  fixes h :: "'a::linorder \<Rightarrow> 'k::linorder"
  assumes "\<And>a b. (h a \<le> h b) = (a \<le> b)"
  shows "sort_key h xs = sort xs"
proof (rule properties_for_sort_key)
  show "mset (sort xs) = mset xs" by simp
  show "sorted (map h (sort xs))" by (simp add: sorted_map assms)
  fix k assume "k \<in> set (sort xs)"
  have inj: "(h k = h x) = (k = x)" for x
    using assms by (metis order_antisym order_refl)
  show "filter (\<lambda>x. h k = h x) (sort xs) = filter (\<lambda>x. h k = h x) xs"
  proof -
    have "filter (\<lambda>x. h k = h x) (sort xs) = filter (\<lambda>x. x = k) (sort xs)"
      by (simp only: inj eq_commute [of k])
    also have "\<dots> = filter (\<lambda>x. x = k) xs"
      using sort_key_stable [of "\<lambda>x. x" k xs] by simp
    also have "\<dots> = filter (\<lambda>x. h k = h x) xs"
      by (simp only: inj eq_commute [of k])
    finally show ?thesis .
  qed
qed

lemma normalize_strings:
  "normalize_dict (PList (map PStr ss)) = Inr (PList (map PStr (sort ss)))"
proof -
  have "collect (map normalize_dict (map PStr ss)) = Inr (map PStr ss)"
    by (intro collect_normalize_scalars) auto
  moreover have "py_sorted (map PStr ss) = Inr (sort_key str_of (map PStr ss))"
    by (intro py_sorted_total) auto
  moreover have "sort_key str_of (map PStr ss) = map PStr (sort ss)"
    by (rule sort_key_map_inj) simp
  ultimately show ?thesis by simp
qed

lemma normalize_ints:
  "normalize_dict (PList (map PInt ns)) = Inr (PList (map PInt (sort ns)))"
proof -
  have "sort_key the_num (map PInt ns) = map PInt (sort_key (\<lambda>n. (0 :: int, of_int n :: rat)) ns)"
    by (rule sort_key_map_inj) (simp add: the_num_def)
  also have "sort_key (\<lambda>n. (0 :: int, of_int n :: rat)) ns = sort ns"
    by (rule sort_key_order_embedding) (simp add: less_eq_prod_def)
  finally have "sort_key the_num (map PInt ns) = map PInt (sort ns)" .
  moreover have "\<forall>x\<in>set (map PInt ns). kind_of x = NumKind \<and> \<not> is_nan x"
    by (auto simp: is_nan_def)
  ultimately show ?thesis using normalize_numbers [of "map PInt ns"] by simp
qed

lemma normalize_two_dicts:
  "normalize_dict (PList (PDict a # PDict b # rest)) = Inl TypeError"
proof (cases "collect (map normalize_dict (PDict a # PDict b # rest))")
  case (Inl e)
  then show ?thesis by (simp only: normalize_dict.simps sum.case)
next
  case (Inr ys)
  from collect_map_Inr [OF Inr] obtain a' b' zs where ys: "ys = a' # b' # zs"
    and ab: "normalize_dict (PDict a) = Inr a'" "normalize_dict (PDict b) = Inr b'"
    by (auto simp only: list_all2_Cons1)
  from ab [THEN normalize_dict_kind] obtain ia ib where "a' = PDict ia" "b' = PDict ib"
    by (cases a'; cases b') simp_all
  then have "py_sorted ys = Inl TypeError"
    by (simp add: ys py_sorted_def)
  with Inr show ?thesis by (simp only: normalize_dict.simps sum.case)
qed

lemma normalize_mappings:
  assumes "2 \<le> length (filter (\<lambda>v. kind_of v = DictKind) xs)"
  shows "normalize_dict (PList xs) = Inl TypeError"
proof (cases "\<forall>x\<in>set xs. kind_of x = DictKind")
  case True
  then have "filter (\<lambda>v. kind_of v = DictKind) xs = xs" by simp
  with assms have "2 \<le> length xs" by simp
  then obtain u v rest where xs: "xs = u # v # rest"
    by (cases xs; cases "tl xs") auto
  with True obtain a b where "u = PDict a" "v = PDict b"
    by (cases u; cases v) auto
  with xs show ?thesis by (simp only: normalize_two_dicts)
next
  case False
  then obtain x where x: "x \<in> set xs" "kind_of x \<noteq> DictKind" by blast
  from assms have "filter (\<lambda>v. kind_of v = DictKind) xs \<noteq> []" by auto
  then obtain y where y: "y \<in> set xs" "kind_of y = DictKind"
    unfolding filter_empty_conv by blast
  from x(2) y(2) have "kind_of x \<noteq> kind_of y" by simp
  from normalize_list_mixed [OF x(1) y(1) this] show ?thesis .
qed

text \<open>
  Claim C2, as the code has it. A list of numbers (integers, booleans, floats), none of
  them a NaN, is normalized to the same numbers sorted by value (stably, so \<^verbatim>\<open>False\<close>,
  \<^verbatim>\<open>0\<close> and \<^verbatim>\<open>0.0\<close> keep their order); a list of integers to the sorted integers; a list
  of strings to the strings in lexicographic order. A list that holds two or more mappings
  is not normalized at all: the call raises \<^verbatim>\<open>TypeError\<close>, since Python does not order
  dicts.
\<close>

theorem normalize_homogeneous_list:
  "((\<forall>x\<in>set xs. kind_of x = NumKind \<and> \<not> is_nan x) \<longrightarrow>
      normalize_dict (PList xs) = Inr (PList (sort_key the_num xs)))
   \<and> normalize_dict (PList (map PInt ns)) = Inr (PList (map PInt (sort ns)))
   \<and> normalize_dict (PList (map PStr ss)) = Inr (PList (map PStr (sort ss)))
   \<and> (2 \<le> length (filter (\<lambda>v. kind_of v = DictKind) ds) \<longrightarrow>
        normalize_dict (PList ds) = Inl TypeError)"
  using normalize_numbers normalize_ints normalize_strings normalize_mappings by blast

text \<open>
  The witness: \<^verbatim>\<open>[0.5, 1, True, 0.2, 0]\<close> is normalized to \<^verbatim>\<open>[0, 0.2, 0.5, 1, True]\<close>, and
  the normalization of \<^verbatim>\<open>[{}, 1, {}]\<close> raises.
\<close>

theorem normalize_homogeneous_list_witness:
  "normalize_dict (PList [PFloat 0x3FE0000000000000, PInt 1, PBool True,
                           PFloat 0x3FC999999999999A, PInt 0])
     = Inr (PList [PInt 0, PFloat 0x3FC999999999999A, PFloat 0x3FE0000000000000,
                   PInt 1, PBool True])
   \<and> normalize_dict (PList [PDict [], PInt 1, PDict []]) = Inl TypeError"
proof -
  let ?xs = "[PFloat 0x3FE0000000000000, PInt 1, PBool True, PFloat 0x3FC999999999999A, PInt 0]"
  have nums: "\<forall>x\<in>set ?xs. kind_of x = NumKind \<and> \<not> is_nan x"
    by code_simp
  have dicts: "2 \<le> length (filter (\<lambda>v. kind_of v = DictKind) [PDict [], PInt 1, PDict []])"
    by simp
  have sorted: "sort_key the_num ?xs
     = [PInt 0, PFloat 0x3FC999999999999A, PFloat 0x3FE0000000000000, PInt 1, PBool True]"
    by code_simp
  from normalize_homogeneous_list [of ?xs _ _ "[PDict [], PInt 1, PDict []]"] nums dicts
  have "normalize_dict (PList ?xs) = Inr (PList (sort_key the_num ?xs))"
    and "normalize_dict (PList [PDict [], PInt 1, PDict []]) = Inl TypeError"
    by blast+
  then show ?thesis by (simp only: sorted)
qed

text \<open>
  Claim C2, as stated, fails twice. The normalization of the list of two empty mappings
  raises. And the list of the floats NaN and \<^verbatim>\<open>0.0\<close> comes back as it was given, in
  either order: whatever place the NaN has in an order, one of the two results is not
  sorted.
\<close>

theorem mappings_and_nan_not_sorted:
  "normalize_dict (PList [PDict [], PDict []]) = Inl TypeError
   \<and> is_nan (PFloat 0x7FF8000000000000)
   \<and> normalize_dict (PList [PFloat 0x7FF8000000000000, PFloat 0])
       = Inr (PList [PFloat 0x7FF8000000000000, PFloat 0])
   \<and> normalize_dict (PList [PFloat 0, PFloat 0x7FF8000000000000])
       = Inr (PList [PFloat 0, PFloat 0x7FF8000000000000])"
  by code_simp

subsection \<open>The order of the keys\<close>

lemma filter_key_distinct:
  "distinct (map fst l) \<Longrightarrow> k \<in> set l \<Longrightarrow> filter (\<lambda>x. fst k = fst x) l = [k]"
proof (induction l)
  case Nil
  then show ?case by simp
next
  case (Cons a l)
  show ?case
  proof (cases "k = a")
    case True
    have "filter (\<lambda>x. fst a = fst x) l = []"
      unfolding filter_empty_conv using Cons.prems(1) by (auto simp: image_iff)
    with True show ?thesis by simp
  next
    case False
    with Cons.prems have kl: "k \<in> set l" by simp
    with Cons.prems(1) have "fst k \<noteq> fst a" by (auto simp: image_iff)
    with kl Cons show ?thesis by simp
  qed
qed

lemma sorted_items_perm:
  assumes "distinct (map fst b)" and "mset b = mset c"
  shows "sorted_items c = sorted_items b"
  unfolding sorted_items_def
proof (rule properties_for_sort_key)
  show "mset (sort_key fst b) = mset c" using assms(2) by simp
  show "sorted (map fst (sort_key fst b))" by simp
  fix k assume k: "k \<in> set (sort_key fst b)"
  have "mset (map fst (sort_key fst b)) = mset (map fst b)" by simp
  then have d1: "distinct (map fst (sort_key fst b))"
    using assms(1) by (metis mset_eq_imp_distinct_iff)
  have "mset (map fst c) = mset (map fst b)" using assms(2) by (metis mset_map)
  then have d2: "distinct (map fst c)"
    using assms(1) by (metis mset_eq_imp_distinct_iff)
  have kc: "k \<in> set c" using k assms(2) by (metis set_sort mset_eq_setD)
  show "filter (\<lambda>x. fst k = fst x) (sort_key fst b) = filter (\<lambda>x. fst k = fst x) c"
    by (simp only: filter_key_distinct [OF d1 k] filter_key_distinct [OF d2 kc])
qed

lemma insort_key_rel:
  assumes "\<And>u v. R u v \<Longrightarrow> fst u = fst v"
  shows "list_all2 R xs ys \<Longrightarrow> R x y \<Longrightarrow>
         list_all2 R (insort_key fst x xs) (insort_key fst y ys)"
proof (induction rule: list_all2_induct)
  case Nil
  then show ?case by simp
next
  case (Cons a xs b ys)
  from assms [OF Cons.hyps(1)] assms [OF Cons.prems] Cons show ?case by simp
qed

lemma sort_key_rel:
  assumes "\<And>u v. R u v \<Longrightarrow> fst u = fst v"
  shows "list_all2 R xs ys \<Longrightarrow> list_all2 R (sort_key fst xs) (sort_key fst ys)"
  by (induction rule: list_all2_induct) (simp_all add: insort_key_rel [OF assms])

lemma list_all2_map_eq:
  "list_all2 (\<lambda>x y. f x = g y) xs ys \<Longrightarrow> map f xs = map g ys"
  by (induction rule: list_all2_induct) simp_all

lemma list_all2_wf_left:
  "list_all2 (\<lambda>x y. Q x y \<and> (W x \<longrightarrow> P x y)) xs ys \<Longrightarrow> \<forall>x\<in>set xs. W x \<Longrightarrow> list_all2 P xs ys"
  by (induction rule: list_all2_induct) simp_all

lemma normalize_dict_reordered:
  "reordered v w \<Longrightarrow> wf_val v \<Longrightarrow> normalize_dict v = normalize_dict w"
proof (induction rule: reordered.induct)
  case (same v)
  then show ?case by simp
next
  case (in_list xs ys)
  from in_list.prems have "\<forall>x\<in>set xs. wf_val x" by (simp add: list_all_iff)
  with in_list.IH have "list_all2 (\<lambda>x y. normalize_dict x = normalize_dict y) xs ys"
    by (rule list_all2_wf_left)
  then have "map normalize_dict xs = map normalize_dict ys"
    by (rule list_all2_map_eq)
  then show ?case by simp
next
  case (in_dict a b c)
  let ?g = "\<lambda>kv. case normalize_dict (snd kv) of Inl e \<Rightarrow> Inl e | Inr v \<Rightarrow> Inr (fst kv, v)"
  let ?R = "\<lambda>kv kv'. fst kv = fst kv' \<and> normalize_dict (snd kv) = normalize_dict (snd kv')"
  from in_dict.prems have wa: "\<forall>kv\<in>set a. wf_val (snd kv)" and da: "distinct (map fst a)"
    by (simp_all add: list_all_iff)
  have "list_all2 ?R a b"
    using in_dict.IH wa by (induction rule: list_all2_induct) simp_all
  then have rel: "list_all2 ?R (sorted_items a) (sorted_items b)"
    unfolding sorted_items_def by (intro sort_key_rel) simp_all
  have "list_all2 (\<lambda>kv kv'. ?g kv = ?g kv') (sorted_items a) (sorted_items b)"
    by (rule list_all2_mono [OF rel]) (auto split: sum.splits)
  then have m: "map ?g (sorted_items a) = map ?g (sorted_items b)"
    by (rule list_all2_map_eq)
  have "map fst a = map fst b"
    using in_dict.IH by (induction rule: list_all2_induct) simp_all
  with da have "distinct (map fst b)" by simp
  from sorted_items_perm [OF this in_dict.hyps] have "sorted_items c = sorted_items b" .
  with m show ?case by (simp only: normalize_dict.simps)
qed

lemma reordered_wf: "reordered v w \<Longrightarrow> wf_val v \<Longrightarrow> wf_val w"
proof (induction rule: reordered.induct)
  case (same v)
  then show ?case by simp
next
  case (in_list xs ys)
  from in_list.prems have "\<forall>x\<in>set xs. wf_val x" by (simp add: list_all_iff)
  with in_list.IH have "list_all2 (\<lambda>x y. wf_val y) xs ys"
    by (rule list_all2_wf_left)
  then have "\<forall>y\<in>set ys. wf_val y"
    by (induction rule: list_all2_induct) simp_all
  then show ?case by (simp add: list_all_iff)
next
  case (in_dict a b c)
  from in_dict.prems have wa: "\<forall>kv\<in>set a. wf_val (snd kv)" and da: "distinct (map fst a)"
    by (simp_all add: list_all_iff)
  have "list_all2 (\<lambda>kv kv'. fst kv = fst kv' \<and> wf_val (snd kv')) a b"
    using in_dict.IH wa by (induction rule: list_all2_induct) simp_all
  then have "map fst a = map fst b" and wb: "\<forall>kv\<in>set b. wf_val (snd kv)"
    by (induction rule: list_all2_induct) simp_all
  with da have "distinct (map fst b)" by simp
  moreover have "mset (map fst c) = mset (map fst b)"
    using in_dict.hyps by (metis mset_map)
  ultimately have "distinct (map fst c)" by (metis mset_eq_imp_distinct_iff)
  moreover have "set c = set b" using in_dict.hyps by (metis mset_eq_setD)
  ultimately show ?case using wb by (simp add: list_all_iff)
qed

text \<open>
  Claim C1. Let \<open>m'\<close> be \<open>m\<close> with the items of its dicts, at any nesting depth, listed
  in another order. If the normalization of \<open>m\<close> succeeds, then \<^verbatim>\<open>hash_strategy_config\<close>
  returns a digest for \<open>m\<close> and returns the same digest for \<open>m'\<close>.
\<close>

theorem hash_strategy_config_key_order:
  assumes "reordered m m'" and "wf_val m" and "normalize_dict m = Inr n"
  shows "\<exists>h. hash_strategy_config m = Inr h \<and> hash_strategy_config m' = Inr h"
proof -
  from normalize_dict_reordered [OF assms(1,2)] assms(3)
  have "normalize_dict m' = Inr n" by simp
  with assms(3) show ?thesis by (simp add: hash_strategy_config_def)
qed

theorem hash_strategy_config_key_order_witness:
  "\<exists>h. hash_strategy_config
          (PDict [(''type'', PStr ''sma_cross''), (''fast'', PInt 10),
                  (''params'', PDict [(''a'', PInt 1), (''b'', PInt 2)])]) = Inr h
     \<and> hash_strategy_config
          (PDict [(''params'', PDict [(''b'', PInt 2), (''a'', PInt 1)]),
                  (''type'', PStr ''sma_cross''), (''fast'', PInt 10)]) = Inr h"
proof -
  have inner: "reordered (PDict [(''a'', PInt 1), (''b'', PInt 2)])
                         (PDict [(''b'', PInt 2), (''a'', PInt 1)])"
    by (rule reordered.in_dict [where b = "[(''a'', PInt 1), (''b'', PInt 2)]"])
       (simp_all add: reordered.same)
  have outer: "reordered
      (PDict [(''type'', PStr ''sma_cross''), (''fast'', PInt 10),
              (''params'', PDict [(''a'', PInt 1), (''b'', PInt 2)])])
      (PDict [(''params'', PDict [(''b'', PInt 2), (''a'', PInt 1)]),
              (''type'', PStr ''sma_cross''), (''fast'', PInt 10)])"
    by (rule reordered.in_dict [where b = "[(''type'', PStr ''sma_cross''), (''fast'', PInt 10),
              (''params'', PDict [(''b'', PInt 2), (''a'', PInt 1)])]"])
       (simp_all add: reordered.same inner)
  have wf: "wf_val (PDict [(''type'', PStr ''sma_cross''), (''fast'', PInt 10),
              (''params'', PDict [(''a'', PInt 1), (''b'', PInt 2)])])"
    by simp
  have norm: "normalize_dict (PDict [(''type'', PStr ''sma_cross''), (''fast'', PInt 10),
        (''params'', PDict [(''a'', PInt 1), (''b'', PInt 2)])])
     = Inr (PDict [(''fast'', PInt 10), (''params'', PDict [(''a'', PInt 1), (''b'', PInt 2)]),
                   (''type'', PStr ''sma_cross'')])"
    by (simp add: sorted_items_def)
  from hash_strategy_config_key_order [OF outer wf norm] show ?thesis .
qed

subsection \<open>The digest\<close>

text \<open>
  The standard test vector of SHA-256: the digest of the three bytes \<^verbatim>\<open>abc\<close>, as
  \<^verbatim>\<open>hashlib.sha256(b"abc").hexdigest()\<close> returns it.
\<close>

lemma sha256_hexdigest_abc:
  "sha256_hexdigest (encode_utf8 ''abc'')
     = ''ba7816bf8f01cfea414140de5dae2223b00361a396177a9cb410ff61f20015ad''"
  by code_simp

subsection \<open>The master hash\<close>

lemma split_at_delimiter:
  "c \<notin> set a \<Longrightarrow> c \<notin> set b \<Longrightarrow> a @ c # u = b @ c # v \<Longrightarrow> a = b \<and> u = v"
proof (induction a arbitrary: b)
  case Nil
  then show ?case by (cases b) auto
next
  case (Cons x a)
  then show ?case by (cases b) auto
qed

lemma byte_of_nat_inj:
  assumes "a < 256" and "b < 256" and "(of_nat a :: 8 word) = of_nat b"
  shows "a = b"
proof -
  from assms(3) have "unat (of_nat a :: 8 word) = unat (of_nat b :: 8 word)" by simp
  with assms(1,2) show ?thesis by (simp add: unat_of_nat)
qed

lemma utf8_char_prefix_free:
  assumes "utf8_char x @ s = utf8_char y @ t"
  shows "x = y \<and> s = t"
proof -
  define m where "m = (of_char x :: nat)"
  define n where "n = (of_char y :: nat)"
  have lt: "m < 256" "n < 256" by (simp_all add: m_def n_def)
  have hi: "192 + m div 64 < 256" "192 + n div 64 < 256" "128 + m mod 64 < 256" "128 + n mod 64 < 256"
    using lt by simp_all
  have "m = n \<and> s = t"
  proof (cases "m < 128"; cases "n < 128")
    assume a: "m < 128" "n < 128"
    with assms have e: "(of_nat m :: 8 word) = of_nat n" and st: "s = t"
      by (simp_all add: utf8_char_def Let_def m_def n_def)
    from byte_of_nat_inj [OF lt e] st show ?thesis by simp
  next
    assume a: "m < 128" "\<not> n < 128"
    with assms have e: "(of_nat m :: 8 word) = of_nat (192 + n div 64)"
      by (simp add: utf8_char_def Let_def m_def n_def)
    from byte_of_nat_inj [OF lt(1) hi(2) e] a have False by simp
    then show ?thesis ..
  next
    assume a: "\<not> m < 128" "n < 128"
    with assms have e: "(of_nat (192 + m div 64) :: 8 word) = of_nat n"
      by (simp add: utf8_char_def Let_def m_def n_def)
    from byte_of_nat_inj [OF hi(1) lt(2) e] a have False by simp
    then show ?thesis ..
  next
    assume a: "\<not> m < 128" "\<not> n < 128"
    with assms have e: "(of_nat (192 + m div 64) :: 8 word) = of_nat (192 + n div 64)"
      "(of_nat (128 + m mod 64) :: 8 word) = of_nat (128 + n mod 64)" and st: "s = t"
      by (simp_all add: utf8_char_def Let_def m_def n_def)
    from byte_of_nat_inj [OF hi(1,2) e(1)] have d: "m div 64 = n div 64" by simp
    from byte_of_nat_inj [OF hi(3,4) e(2)] have "m mod 64 = n mod 64" by simp
    with d have "m = n" by (metis div_mult_mod_eq)
    with st show ?thesis by simp
  qed
  then show ?thesis by (simp add: m_def n_def)
qed

lemma utf8_char_not_Nil: "utf8_char c \<noteq> []"
  by (simp add: utf8_char_def Let_def)

lemma encode_utf8_Cons: "encode_utf8 (c # cs) = utf8_char c @ encode_utf8 cs"
  by (simp add: encode_utf8_def)

lemma encode_utf8_Nil: "encode_utf8 [] = []"
  by (simp add: encode_utf8_def)

lemma encode_utf8_inj: "encode_utf8 a = encode_utf8 b \<Longrightarrow> a = b"
proof (induction a arbitrary: b)
  case Nil
  show ?case
  proof (cases b)
    case Nil
    then show ?thesis by simp
  next
    case (Cons y b')
    with Nil.prems have "utf8_char y @ encode_utf8 b' = []"
      by (simp only: encode_utf8_Cons encode_utf8_Nil)
    then show ?thesis by (simp add: utf8_char_not_Nil)
  qed
next
  case (Cons x a)
  show ?case
  proof (cases b)
    case Nil
    with Cons.prems have "utf8_char x @ encode_utf8 a = []"
      by (simp only: encode_utf8_Cons encode_utf8_Nil)
    then show ?thesis by (simp add: utf8_char_not_Nil)
  next
    case (Cons y b')
    with Cons.prems have "utf8_char x @ encode_utf8 a = utf8_char y @ encode_utf8 b'"
      by (simp only: encode_utf8_Cons)
    then have "x = y" "encode_utf8 a = encode_utf8 b'"
      using utf8_char_prefix_free by blast+
    with Cons.IH Cons show ?thesis by simp
  qed
qed

lemma swapped_preimages_differ:
  assumes "CHR '':'' \<notin> set d" and "CHR '':'' \<notin> set s" and "d \<noteq> s"
  shows "encode_utf8 (d @ '':'' @ s @ '':'' @ p) \<noteq> encode_utf8 (s @ '':'' @ d @ '':'' @ p)"
proof
  assume "encode_utf8 (d @ '':'' @ s @ '':'' @ p) = encode_utf8 (s @ '':'' @ d @ '':'' @ p)"
  then have "d @ '':'' @ s @ '':'' @ p = s @ '':'' @ d @ '':'' @ p"
    by (rule encode_utf8_inj)
  then have "d @ CHR '':'' # (s @ '':'' @ p) = s @ CHR '':'' # (d @ '':'' @ p)"
    by simp
  from split_at_delimiter [OF assms(1,2) this] assms(3) show False by simp
qed

text \<open>
  \<^verbatim>\<open>create_backtest_hash\<close> returns the SHA-256 hex digest of the UTF-8 bytes of
  \<^verbatim>\<open>data_hash:strategy_hash:params_hash\<close>.
\<close>

lemma create_backtest_hash_combined:
  "create_backtest_hash d s p = sha256_hexdigest (encode_utf8 (d @ '':'' @ s @ '':'' @ p))"
  by (simp only: create_backtest_hash_def Let_def)

text \<open>
  A hex digest does not contain the delimiter, so for two distinct hex digests the bytes
  digested in the order \<open>d, s\<close> differ from those digested in the order \<open>s, d\<close>. Whether
  the two digests of these different bytes differ as well is a question about SHA-256
  itself (that it has no collision on them), which nothing here decides.
\<close>

lemma delimiter_not_hex: "\<not> is_hex_char CHR '':''"
  by (simp add: is_hex_char_def)

lemma hex_digest_no_delimiter:
  assumes "is_hex_digest (PStr s)"
  shows "CHR '':'' \<notin> set s"
proof
  assume "CHR '':'' \<in> set s"
  moreover from assms have "list_all is_hex_char s" by (simp add: is_hex_digest_def)
  ultimately have "is_hex_char CHR '':''" by (simp add: list_all_iff)
  with delimiter_not_hex show False ..
qed

lemma swapped_digest_inputs_differ:
  assumes "is_hex_digest (PStr d)" and "is_hex_digest (PStr s)" and "d \<noteq> s"
  shows "encode_utf8 (d @ '':'' @ s @ '':'' @ p) \<noteq> encode_utf8 (s @ '':'' @ d @ '':'' @ p)"
  using assms by (intro swapped_preimages_differ hex_digest_no_delimiter)

text \<open>
  The function does not check its arguments. For strings that contain the delimiter the
  combined text does not tell the three parts: \<^verbatim>\<open>a\<close> and \<^verbatim>\<open>a:a\<close> give \<^verbatim>\<open>a:a:a:c\<close> in
  either order.
\<close>

lemma delimiter_in_argument:
  "create_backtest_hash ''a'' ''a:a'' ''c'' = create_backtest_hash ''a:a'' ''a'' ''c''"
proof -
  have "''a'' @ '':'' @ ''a:a'' @ '':'' @ ''c'' = ''a:a'' @ '':'' @ ''a'' @ '':'' @ ''c''"
    by simp
  then show ?thesis by (simp only: create_backtest_hash_def Let_def)
qed

end
